theory Spec2Isabelle
  imports Main "HOL-Library.Word"
begin

section \<open>The tracked allocator of \<^verbatim>\<open>src/game/memory.c\<close>\<close>

text \<open>
  \<^verbatim>\<open>size_t\<close> is a 64-bit word (\<^verbatim>\<open>sizeof(struct memhead) == 16\<close> is asserted by the
  source, which fixes an 8-byte \<^verbatim>\<open>size_t\<close>), \<^verbatim>\<open>int\<close> a 32-bit word read with \<open>sint\<close>
  where the source compares, \<^verbatim>\<open>uint8_t\<close> an 8-bit word. Arithmetic on the counters
  wraps around, as the words do.

  A pointer is a 64-bit address, \<open>0\<close> is \<^verbatim>\<open>NULL\<close>. The heap maps the start address of
  each live allocation to its contents: the two fields of \<^verbatim>\<open>struct memhead\<close> and the
  bytes behind the 16-byte header (the leading guard, the payload, the trailing guard).
  Reading or writing an address that is no live allocation, or outside its bytes, and
  indexing \<^verbatim>\<open>memsize\<close> or \<^verbatim>\<open>memptrs\<close> out of range, is undefined behaviour in C: the model
  returns \<open>None\<close> there.
\<close>

type_synonym size_t = "64 word"
type_synonym ptr = "64 word"
type_synonym byte = "8 word"

record block =
  b_size :: size_t
  b_ID :: byte
  b_body :: "byte list"

record mem_state =
  memused :: size_t
  memptrused :: "32 word"
  maxmemsize :: size_t
  maxmemptrs :: "32 word"
  memptrs :: "32 word list"
  memsize :: "size_t list"
  memcheckset :: size_t
  memcheck :: "byte list"
  xmemcheck_failed :: "32 word"
  heap :: "ptr \<Rightarrow> block option"
  msgs :: "string list"

text \<open>\<^verbatim>\<open>sizeof(struct memhead)\<close> and \<^verbatim>\<open>sizeof(memcheck)\<close>.\<close>

definition SIZEOF_MEMHEAD :: size_t where
  "SIZEOF_MEMHEAD = 16"

definition SIZEOF_MEMCHECK :: size_t where
  "SIZEOF_MEMCHECK = 256"

text \<open>\<^verbatim>\<open>sizeof(struct memhead) + sizeof(memcheck) + size + sizeof(memcheck)\<close>, in \<^verbatim>\<open>size_t\<close>.\<close>

definition gross :: "size_t \<Rightarrow> size_t" where
  "gross sz = SIZEOF_MEMHEAD + SIZEOF_MEMCHECK + sz + SIZEOF_MEMCHECK"

text \<open>\<^verbatim>\<open>fail(...)\<close> and \<^verbatim>\<open>note(...)\<close>: the format string is appended to the messages.\<close>

definition say :: "string \<Rightarrow> mem_state \<Rightarrow> mem_state" where
  "say m s = s\<lparr>msgs := msgs s @ [m]\<rparr>"

text \<open>
  \<^verbatim>\<open>update_mem_stats_add\<close>: the four array updates in the source's order (so that
  \<^verbatim>\<open>ID == 0\<close> adds twice to cell 0), the two maxima, then the two scalar counters.
\<close>

definition update_mem_stats_add :: "byte \<Rightarrow> size_t \<Rightarrow> mem_state \<Rightarrow> mem_state option" where
  "update_mem_stats_add ID sz s =
     (if unat ID < length (memsize s) \<and> unat ID < length (memptrs s) then
        let ms1 = (memsize s)[unat ID := memsize s ! unat ID + sz];
            mp1 = (memptrs s)[unat ID := memptrs s ! unat ID + 1];
            ms2 = ms1[0 := ms1 ! 0 + sz];
            mp2 = mp1[0 := mp1 ! 0 + 1];
            mxs = (if maxmemsize s < ms2 ! 0 then ms2 ! 0 else maxmemsize s);
            mxp = (if sint (maxmemptrs s) < sint (mp2 ! 0) then mp2 ! 0 else maxmemptrs s)
        in Some (s\<lparr>memsize := ms2, memptrs := mp2, maxmemsize := mxs, maxmemptrs := mxp,
                    memused := memused s + gross sz,
                    memptrused := memptrused s + 1\<rparr>)
      else None)"

definition update_mem_stats_remove :: "byte \<Rightarrow> size_t \<Rightarrow> mem_state \<Rightarrow> mem_state option" where
  "update_mem_stats_remove ID sz s =
     (if unat ID < length (memsize s) \<and> unat ID < length (memptrs s) then
        let ms1 = (memsize s)[unat ID := memsize s ! unat ID - sz];
            mp1 = (memptrs s)[unat ID := memptrs s ! unat ID - 1];
            ms2 = ms1[0 := ms1 ! 0 - sz];
            mp2 = mp1[0 := mp1 ! 0 - 1]
        in Some (s\<lparr>memsize := ms2, memptrs := mp2,
                    memused := memused s - gross sz,
                    memptrused := memptrused s - 1\<rparr>)
      else None)"

text \<open>The block a user pointer belongs to: \<^verbatim>\<open>ptr - (sizeof(struct memhead) + sizeof(memcheck))\<close>.\<close>

definition mem_of :: "ptr \<Rightarrow> ptr" where
  "mem_of p = p - (SIZEOF_MEMHEAD + SIZEOF_MEMCHECK)"

definition rptr_of :: "ptr \<Rightarrow> ptr" where
  "rptr_of m = m + SIZEOF_MEMHEAD + SIZEOF_MEMCHECK"

text \<open>The bytes of a block at an offset behind the header; \<open>None\<close> outside the block.\<close>

definition read_at :: "nat \<Rightarrow> nat \<Rightarrow> byte list \<Rightarrow> byte list option" where
  "read_at off n bs = (if off + n \<le> length bs then Some (take n (drop off bs)) else None)"

definition write_at :: "nat \<Rightarrow> byte list \<Rightarrow> byte list \<Rightarrow> byte list option" where
  "write_at off ds bs =
     (if off + length ds \<le> length bs
      then Some (take off bs @ ds @ drop (off + length ds) bs) else None)"

text \<open>
  \<^verbatim>\<open>xmemcheck\<close>, with \<^verbatim>\<open>MAX_MEM\<close> (a macro of \<^verbatim>\<open>astonia.h\<close>) as the parameter \<open>M\<close>.
  The result is the returned \<^verbatim>\<open>int\<close> and the state.
\<close>

definition xmemcheck :: "nat \<Rightarrow> ptr \<Rightarrow> mem_state \<Rightarrow> (int \<times> mem_state) option" where
  "xmemcheck M p s =
     (if p = 0 then Some (0, s)
      else case heap s (mem_of p) of
        None \<Rightarrow> None
      | Some b \<Rightarrow>
          if M \<le> unat (b_ID b)
          then Some (-1, (say ''xmemcheck: ill mem id (%d)'' s)\<lparr>xmemcheck_failed := 1\<rparr>)
          else (case read_at 0 (unat SIZEOF_MEMCHECK) (b_body b) of
            None \<Rightarrow> None
          | Some hd_bytes \<Rightarrow>
              if hd_bytes \<noteq> memcheck s
              then Some (-1, (say ''xmemcheck: ill head in %s (ptr=%p)'' s)\<lparr>xmemcheck_failed := 1\<rparr>)
              else (case read_at (unat SIZEOF_MEMCHECK + unat (b_size b))
                                 (unat SIZEOF_MEMCHECK) (b_body b) of
                None \<Rightarrow> None
              | Some tl_bytes \<Rightarrow>
                  if tl_bytes \<noteq> memcheck s
                  then Some (-1, (say ''xmemcheck: ill tail in %s (ptr=%p)'' s)\<lparr>xmemcheck_failed := 1\<rparr>)
                  else Some (0, s))))"

text \<open>
  The first lines of \<^verbatim>\<open>xmalloc\<close>: while \<^verbatim>\<open>memcheckset\<close> is zero the guard pattern is
  filled from \<^verbatim>\<open>rrand(256)\<close> (an external generator: \<open>rnd k\<close> is its \<open>k\<close>-th answer,
  cast to \<^verbatim>\<open>char\<close>), the loop leaves \<^verbatim>\<open>memcheckset == sizeof(memcheck)\<close>, and \<^verbatim>\<open>sprintf\<close>
  overwrites the first 22 bytes with the text and its terminator.
\<close>

definition memcheck_text :: "byte list" where
  "memcheck_text = map of_char ''!MEMCKECK MIGHT FAIL!'' @ [0]"

definition set_memcheck :: "(nat \<Rightarrow> byte) \<Rightarrow> mem_state \<Rightarrow> mem_state" where
  "set_memcheck rnd s =
     (if memcheckset s = 0
      then s\<lparr>memcheck := memcheck_text @ drop (length memcheck_text) (map rnd [0..<unat SIZEOF_MEMCHECK]),
             memcheckset := SIZEOF_MEMCHECK\<rparr>
      else s)"

text \<open>
  \<^verbatim>\<open>xmalloc\<close>. \<open>ca\<close> is what \<^verbatim>\<open>CALLOC\<close> answers when it is called (\<open>0\<close> for \<^verbatim>\<open>NULL\<close>,
  else the start of a zeroed allocation of the requested number of bytes).
\<close>

definition xmalloc ::
  "nat \<Rightarrow> (nat \<Rightarrow> byte) \<Rightarrow> ptr \<Rightarrow> size_t \<Rightarrow> byte \<Rightarrow> mem_state \<Rightarrow> (ptr \<times> mem_state) option" where
  "xmalloc M rnd ca sz ID s0 =
     (let s = set_memcheck rnd s0 in
      if sz = 0 then Some (0, s)
      else
        let s1 = s\<lparr>memptrused := memptrused s + 1\<rparr> in
        if ca = 0 then Some (0, say ''OUT OF MEMORY !!!'' s1)
        else
          let zeroed = \<lparr>b_size = 0, b_ID = 0,
                         b_body = replicate (unat (gross sz) - unat SIZEOF_MEMHEAD) 0\<rparr>;
              s2 = s1\<lparr>heap := (heap s1)(ca \<mapsto> zeroed), memused := memused s1 + gross sz\<rparr>
          in
          if M \<le> unat ID then Some (0, say ''xmalloc: ill mem id'' s2)
          else if unat (gross sz) < unat SIZEOF_MEMHEAD then None
          else if \<not> (unat ID < length (memsize s2) \<and> unat ID < length (memptrs s2)) then None
          else
            let ms1 = (memsize s2)[unat ID := memsize s2 ! unat ID + sz];
                mp1 = (memptrs s2)[unat ID := memptrs s2 ! unat ID + 1];
                ms2 = ms1[0 := ms1 ! 0 + sz];
                mp2 = mp1[0 := mp1 ! 0 + 1];
                mxs = (if maxmemsize s2 < ms2 ! 0 then ms2 ! 0 else maxmemsize s2);
                mxp = (if sint (maxmemptrs s2) < sint (mp2 ! 0) then mp2 ! 0 else maxmemptrs s2);
                s3 = s2\<lparr>memsize := ms2, memptrs := mp2, maxmemsize := mxs, maxmemptrs := mxp\<rparr>
            in
            case write_at 0 (memcheck s3) (b_body zeroed) of
              None \<Rightarrow> None
            | Some body1 \<Rightarrow>
                (case write_at (unat SIZEOF_MEMCHECK + unat sz) (memcheck s3) body1 of
                   None \<Rightarrow> None
                 | Some body2 \<Rightarrow>
                     let s4 = s3\<lparr>heap := (heap s3)(ca \<mapsto> \<lparr>b_size = sz, b_ID = ID, b_body = body2\<rparr>)\<rparr>
                     in (case xmemcheck M (rptr_of ca) s4 of
                           None \<Rightarrow> None
                         | Some (r, s5) \<Rightarrow> Some (rptr_of ca, s5))))"

text \<open>\<^verbatim>\<open>xfree\<close>: \<^verbatim>\<open>FREE(mem)\<close> ends the allocation.\<close>

definition xfree :: "nat \<Rightarrow> ptr \<Rightarrow> mem_state \<Rightarrow> mem_state option" where
  "xfree M p s =
     (if p = 0 then Some s
      else case xmemcheck M p s of
        None \<Rightarrow> None
      | Some (r, s1) \<Rightarrow>
          if r \<noteq> 0 then Some s1
          else (case heap s1 (mem_of p) of
            None \<Rightarrow> None
          | Some b \<Rightarrow>
              (case update_mem_stats_remove (b_ID b) (b_size b) s1 of
                 None \<Rightarrow> None
               | Some s2 \<Rightarrow> Some (s2\<lparr>heap := (heap s2)((mem_of p) := None)\<rparr>))))"

text \<open>
  \<^verbatim>\<open>xrealloc\<close>. \<open>ra\<close> is what \<^verbatim>\<open>REALLOC\<close> answers when it is called: \<open>0\<close> for \<^verbatim>\<open>NULL\<close>
  (the old allocation then stays as it is), else the start of the resized allocation,
  which keeps the old bytes up to the smaller of the two sizes and continues with the
  indeterminate bytes \<open>junk\<close>; the old address is no longer live.
  \<^verbatim>\<open>INT_MAX\<close> is \<open>2 ^ 31 - 1\<close>.
\<close>

definition INT_MAX :: nat where
  "INT_MAX = 2 ^ 31 - 1"

definition resized :: "size_t \<Rightarrow> byte list \<Rightarrow> block \<Rightarrow> block" where
  "resized sz junk b =
     b\<lparr>b_body := take (unat (gross sz) - unat SIZEOF_MEMHEAD)
                    (b_body b @ junk @ replicate (unat (gross sz)) 0)\<rparr>"

definition xrealloc ::
  "nat \<Rightarrow> (nat \<Rightarrow> byte) \<Rightarrow> ptr \<Rightarrow> ptr \<Rightarrow> byte list \<Rightarrow> ptr \<Rightarrow> size_t \<Rightarrow> byte \<Rightarrow> mem_state
     \<Rightarrow> (ptr \<times> mem_state) option" where
  "xrealloc M rnd ca ra junk p sz ID s =
     (if p = 0 then
        (if INT_MAX < unat sz then Some (0, s) else xmalloc M rnd ca sz ID s)
      else if sz = 0 then
        (case xfree M p s of None \<Rightarrow> None | Some s1 \<Rightarrow> Some (0, s1))
      else case xmemcheck M p s of
        None \<Rightarrow> None
      | Some (r, s1) \<Rightarrow>
          if r \<noteq> 0 then Some (0, s1)
          else (case heap s1 (mem_of p) of
            None \<Rightarrow> None
          | Some b \<Rightarrow>
              let old_ID = b_ID b; old_size = b_size b in
              (case update_mem_stats_remove old_ID old_size s1 of
                 None \<Rightarrow> None
               | Some s2 \<Rightarrow>
                   if ra = 0 then
                     (case update_mem_stats_add old_ID old_size s2 of
                        None \<Rightarrow> None
                      | Some s3 \<Rightarrow> Some (0, say ''xrealloc: OUT OF MEMORY !!!'' s3))
                   else
                     let b1 = resized sz junk b;
                         s3 = s2\<lparr>heap := ((heap s2)((mem_of p) := None))(ra \<mapsto> b1)\<rparr>
                     in
                     if INT_MAX < unat sz then Some (0, say ''xrealloc: size too large'' s3)
                     else (case update_mem_stats_add ID sz s3 of
                        None \<Rightarrow> None
                      | Some s4 \<Rightarrow>
                          (case write_at 0 (memcheck s4) (b_body b1) of
                             None \<Rightarrow> None
                           | Some body1 \<Rightarrow>
                               (case write_at (unat SIZEOF_MEMCHECK + unat sz) (memcheck s4) body1 of
                                  None \<Rightarrow> None
                                | Some body2 \<Rightarrow>
                                    Some (rptr_of ra,
                                      s4\<lparr>heap := (heap s4)(ra \<mapsto> \<lparr>b_size = sz, b_ID = ID, b_body = body2\<rparr>)\<rparr>)))))))"

text \<open>
  A valid tracked pointer: a non-null pointer whose block passes \<^verbatim>\<open>xmemcheck\<close> (its
  \<^verbatim>\<open>ID\<close> is below \<^verbatim>\<open>MAX_MEM\<close> and both guards are intact).
\<close>

definition tracked :: "nat \<Rightarrow> ptr \<Rightarrow> mem_state \<Rightarrow> bool" where
  "tracked M p s = (p \<noteq> 0 \<and> xmemcheck M p s = Some (0, s))"

text \<open>
  A concrete allocator state for the examples: \<^verbatim>\<open>MAX_MEM\<close> is 25 (the length of
  \<^verbatim>\<open>memname\<close>), and one block of 4 bytes with \<^verbatim>\<open>ID\<close> 3 lives at address 1000, so its
  user pointer is \<open>1000 + 16 + 256 = 1272\<close>.
\<close>

definition demo_guard :: "byte list" where
  "demo_guard = replicate 256 7"

definition demo_mem :: mem_state where
  "demo_mem = \<lparr>memused = 532, memptrused = 1, maxmemsize = 4, maxmemptrs = 1,
     memptrs = [1, 0, 0, 1] @ replicate 21 0, memsize = [4, 0, 0, 4] @ replicate 21 0,
     memcheckset = 256, memcheck = demo_guard, xmemcheck_failed = 0,
     heap = (\<lambda>a. None)(1000 \<mapsto> \<lparr>b_size = 4, b_ID = 3, b_body = demo_guard @ [1, 2, 3, 4] @ demo_guard\<rparr>),
     msgs = []\<rparr>"


section \<open>The bucket chains of the surface cache\<close>

text \<open>
  The cache itself (\<^verbatim>\<open>sdl_tx_load\<close>, the hash functions, the tables \<^verbatim>\<open>sdlt\<close> and
  \<^verbatim>\<open>sdlt_cache\<close>) is not among the sources: only the test harness that walks its chains
  is. The definitions of this section follow the specification, sections 3 and 4.
\<close>

text \<open>
  Modelled from the spec: the rendering descriptor of section 3 (the source's key
  fields are missing). A sprite descriptor is the sprite id and its numeric modifiers,
  a text descriptor the bytes of the string, the packed colour and the style flags.
  The kind tag tells the two variants apart.
\<close>

datatype kind = SpriteKind | TextKind

datatype descriptor =
    Sprite "32 word" "32 word list"
  | Text "byte list" "32 word" "32 word"

fun kind_of :: "descriptor \<Rightarrow> kind" where
  "kind_of (Sprite sprite mods) = SpriteKind"
| "kind_of (Text text color flags) = TextKind"

text \<open>
  Modelled from the spec: the cache entry of section 3 (the source's entry record is
  missing): the kind tag, the descriptor that produced the entry, at most one surface
  handle, and the chain link to the next entry of the same bucket (\<open>None\<close> is the
  "none" sentinel).
\<close>

type_synonym handle = nat

record entry =
  e_kind :: kind
  e_desc :: descriptor
  e_surface :: "handle option"
  e_hnext :: "nat option"

text \<open>
  Modelled from the spec: the bucket table (one chain head per bucket) and the entry
  store of section 3 (the source's two arrays are missing). \<open>BUCKET_COUNT\<close> and
  \<open>CACHE_CAPACITY\<close> are the lengths of the two lists.
\<close>

record cache =
  buckets :: "nat option list"
  entries :: "entry list"

text \<open>
  Modelled from the spec: what a lookup reports (sections 4.2, 4.4 and 7): an entry
  index, the "not found" sentinel, or the fatal consistency failure, which the spec
  wants told apart from a miss.
\<close>

datatype lookup = Hit nat | Miss | Fatal

text \<open>
  Modelled from the spec: the cache-hit predicate of section 3, exact equality of the
  stored descriptor with the requested one, and matching kind.
\<close>

definition matches :: "entry \<Rightarrow> descriptor \<Rightarrow> bool" where
  "matches e d = (e_kind e = kind_of d \<and> e_desc e = d)"

text \<open>
  Modelled from the spec: the chain walk of \<open>find\<close> (section 4.2; the source's lookup
  loop is missing). \<open>count\<close> is the loop counter and \<open>cap\<close> the sentinel count of
  the traversal cap. The walk returns the first matching entry, or "not found" at the
  chain terminator; reaching the cap with the chain not yet ended, and a chain pointer
  outside the entry store, are fatal (section 7). The second component is the counter
  when the loop is left.
\<close>

function walk :: "nat \<Rightarrow> entry list \<Rightarrow> descriptor \<Rightarrow> nat \<Rightarrow> nat option \<Rightarrow> lookup \<times> nat" where
  "walk cap es d count None = (Miss, count)"
| "walk cap es d count (Some i) =
     (if cap \<le> count then (Fatal, count)
      else if length es \<le> i then (Fatal, count)
      else if matches (es ! i) d then (Hit i, count)
      else walk cap es d (Suc count) (e_hnext (es ! i)))"
  by pat_completeness auto
termination
  by (relation "measure (\<lambda>(cap, es, d, count, p). cap - count)") auto

text \<open>
  Modelled from the spec: \<open>find(descriptor)\<close> of section 4.2 (the source's function is
  missing). The hash function of section 4.1 is the parameter \<open>hash\<close>; its contract is
  a bucket index below \<open>BUCKET_COUNT\<close>, and an index outside the table is reported as
  the fatal failure. \<open>find_steps\<close> is the number of chain links the same call followed.
\<close>

definition find_entry :: "nat \<Rightarrow> (descriptor \<Rightarrow> nat) \<Rightarrow> cache \<Rightarrow> descriptor \<Rightarrow> lookup" where
  "find_entry cap hash c d =
     (if hash d < length (buckets c)
      then fst (walk cap (entries c) d 0 (buckets c ! hash d))
      else Fatal)"

definition find_steps :: "nat \<Rightarrow> (descriptor \<Rightarrow> nat) \<Rightarrow> cache \<Rightarrow> descriptor \<Rightarrow> nat" where
  "find_steps cap hash c d =
     (if hash d < length (buckets c)
      then snd (walk cap (entries c) d 0 (buckets c ! hash d))
      else 0)"

text \<open>
  Modelled from the spec: step 4 of \<open>load\<close> (section 4.4; the source's function is
  missing): populate the entry's descriptor, kind and surface, set its chain pointer to
  the current bucket head, and set the bucket head to the new entry's index.
\<close>

definition link :: "(descriptor \<Rightarrow> nat) \<Rightarrow> cache \<Rightarrow> nat \<Rightarrow> descriptor \<Rightarrow> handle \<Rightarrow> cache" where
  "link hash c i d sf =
     c\<lparr>entries := (entries c)[i := \<lparr>e_kind = kind_of d, e_desc = d, e_surface = Some sf,
                                       e_hnext = buckets c ! hash d\<rparr>],
       buckets := (buckets c)[hash d := Some i]\<rparr>"











text \<open>
  A bucket chain as a list: \<open>is_chain es p xs\<close> says that following the chain pointers
  from \<open>p\<close> visits exactly the slots \<open>xs\<close>, all inside the store, and then reaches the
  terminator. A cyclic chain, and one that leaves the store, is no list.
\<close>

primrec is_chain :: "entry list \<Rightarrow> nat option \<Rightarrow> nat list \<Rightarrow> bool" where
  "is_chain es p [] = (p = None)"
| "is_chain es p (x # xs) = (p = Some x \<and> x < length es \<and> is_chain es (e_hnext (es ! x)) xs)"






text \<open>
  Concrete caches for the examples: two buckets and two slots, sprites hashed by the
  parity of their id (to show bucket collisions). \<open>demo_cyclic\<close> is a corrupt cache
  whose only chain points back to itself.
\<close>

definition blank_entry :: entry where
  "blank_entry = \<lparr>e_kind = SpriteKind, e_desc = Sprite 0 [], e_surface = None, e_hnext = None\<rparr>"

definition demo_cache :: cache where
  "demo_cache = \<lparr>buckets = [None, None], entries = [blank_entry, blank_entry]\<rparr>"

fun demo_hash :: "descriptor \<Rightarrow> nat" where
  "demo_hash (Sprite sprite mods) = unat sprite mod 2"
| "demo_hash (Text text color flags) = 0"

definition demo_cyclic :: cache where
  "demo_cyclic = \<lparr>buckets = [Some 0], entries = [blank_entry\<lparr>e_hnext := Some 0\<rparr>]\<rparr>"


definition demo_loaded :: cache where
  "demo_loaded = link demo_hash demo_cache 0 (Sprite 1 []) 7"







section \<open>Properties of the tracked allocator\<close>

lemma restore_cells:
  fixes xs :: "('a::ab_group_add) list"
  assumes "i < length xs"
  shows "(((xs[i := xs ! i - d])[0 := (xs[i := xs ! i - d]) ! 0 - d])
            [i := ((xs[i := xs ! i - d])[0 := (xs[i := xs ! i - d]) ! 0 - d]) ! i + d])
            [0 := (((xs[i := xs ! i - d])[0 := (xs[i := xs ! i - d]) ! 0 - d])
            [i := ((xs[i := xs ! i - d])[0 := (xs[i := xs ! i - d]) ! 0 - d]) ! i + d]) ! 0 + d] = xs"
proof (cases "i = 0")
  case True
  with assms show ?thesis by (simp add: list_update_same_conv)
next
  case False
  with assms have "0 < length xs" by (cases xs) auto
  with False assms show ?thesis
    by (simp add: list_update_swap [of 0 i] list_update_same_conv nth_list_update)
qed

lemma stats_remove_add:
  assumes "update_mem_stats_remove ID sz s = Some s2"
  shows "\<exists>s3. update_mem_stats_add ID sz s2 = Some s3 \<and>
           memsize s3 = memsize s \<and> memptrs s3 = memptrs s \<and>
           memused s3 = memused s \<and> memptrused s3 = memptrused s \<and> heap s3 = heap s \<and>
           maxmemsize s3 = (if maxmemsize s < memsize s ! 0 then memsize s ! 0 else maxmemsize s) \<and>
           maxmemptrs s3 = (if sint (maxmemptrs s) < sint (memptrs s ! 0) then memptrs s ! 0
                            else maxmemptrs s)"
proof -
  from assms have i: "unat ID < length (memsize s)" "unat ID < length (memptrs s)"
    by (simp_all add: update_mem_stats_remove_def split: if_splits)
  from assms i have s2: "s2 = s\<lparr>memsize := ((memsize s)[unat ID := memsize s ! unat ID - sz])
            [0 := ((memsize s)[unat ID := memsize s ! unat ID - sz]) ! 0 - sz],
         memptrs := ((memptrs s)[unat ID := memptrs s ! unat ID - 1])
            [0 := ((memptrs s)[unat ID := memptrs s ! unat ID - 1]) ! 0 - 1],
         memused := memused s - gross sz, memptrused := memptrused s - 1\<rparr>"
    by (simp add: update_mem_stats_remove_def Let_def)
  show ?thesis
    unfolding s2 update_mem_stats_add_def Let_def
    using i restore_cells [OF i(1), of sz] restore_cells [OF i(2), of 1]
    by simp
qed

lemma xmemcheck_ok_block:
  assumes "p \<noteq> 0" and "xmemcheck M p s = Some (0, s1)"
  shows "s1 = s \<and> (\<exists>b. heap s (mem_of p) = Some b \<and> unat (b_ID b) < M)"
  using assms
  by (auto simp: xmemcheck_def split: option.splits if_splits)

lemma demo_tracked: "tracked 25 1272 demo_mem"
  by (simp add: tracked_def xmemcheck_def demo_mem_def mem_of_def SIZEOF_MEMHEAD_def
      SIZEOF_MEMCHECK_def read_at_def demo_guard_def)

text \<open>
  Claim C9. For every \<^verbatim>\<open>ID\<close>, \<^verbatim>\<open>xmalloc(0, ID)\<close> returns \<^verbatim>\<open>NULL\<close> without calling the
  allocator (the heap is unchanged, whatever \<^verbatim>\<open>CALLOC\<close> would have answered) and leaves
  \<^verbatim>\<open>memsize\<close>, \<^verbatim>\<open>memptrs\<close>, \<^verbatim>\<open>memused\<close> and \<^verbatim>\<open>memptrused\<close> (and the two maxima) as they
  were; only the guard pattern may have been initialised. \<^verbatim>\<open>xfree(NULL)\<close> returns with
  the whole state unchanged.
\<close>

theorem xmalloc_zero_xfree_null:
  "(\<exists>s'. xmalloc M rnd ca 0 ID s = Some (0, s') \<and>
          memsize s' = memsize s \<and> memptrs s' = memptrs s \<and>
          memused s' = memused s \<and> memptrused s' = memptrused s \<and>
          maxmemsize s' = maxmemsize s \<and> maxmemptrs s' = maxmemptrs s \<and>
          heap s' = heap s) \<and>
   xfree M 0 s = Some s"
  by (simp add: xmalloc_def xfree_def set_memcheck_def Let_def)

theorem xmalloc_zero_xfree_null_witness:
  "(\<exists>s'. xmalloc 25 (\<lambda>k. 0) 5000 0 3 demo_mem = Some (0, s') \<and>
          memsize s' = memsize demo_mem \<and> memptrs s' = memptrs demo_mem \<and>
          memused s' = 532 \<and> memptrused s' = 1 \<and>
          maxmemsize s' = 4 \<and> maxmemptrs s' = 1 \<and>
          heap s' = heap demo_mem) \<and>
   xfree 25 0 demo_mem = Some demo_mem"
  using xmalloc_zero_xfree_null [of 25 "\<lambda>k. 0" 5000 3 demo_mem]
  by (simp add: demo_mem_def)

text \<open>
  Claim C10. For every valid tracked pointer and every requested size for which
  \<^verbatim>\<open>xrealloc\<close> reaches \<^verbatim>\<open>REALLOC\<close> (a size of zero frees instead), if \<^verbatim>\<open>REALLOC\<close> returns
  \<^verbatim>\<open>NULL\<close> then \<^verbatim>\<open>xrealloc\<close> returns \<^verbatim>\<open>NULL\<close> and \<^verbatim>\<open>memsize\<close> and \<^verbatim>\<open>memptrs\<close> (every cell,
  the total in cell 0 included), \<^verbatim>\<open>memused\<close> and \<^verbatim>\<open>memptrused\<close> have exactly their
  values from before the call; the heap is unchanged too, and so are the two maxima
  whenever they bounded the totals before.
\<close>

theorem xrealloc_failure_restores:
  assumes "tracked M p s" and "sz \<noteq> 0"
    and "length (memsize s) = M" and "length (memptrs s) = M"
  shows "\<exists>s'. xrealloc M rnd ca 0 junk p sz ID s = Some (0, s') \<and>
           memsize s' = memsize s \<and> memptrs s' = memptrs s \<and>
           memused s' = memused s \<and> memptrused s' = memptrused s \<and> heap s' = heap s \<and>
           (memsize s ! 0 \<le> maxmemsize s \<longrightarrow> maxmemsize s' = maxmemsize s) \<and>
           (sint (memptrs s ! 0) \<le> sint (maxmemptrs s) \<longrightarrow> maxmemptrs s' = maxmemptrs s)"
proof -
  from assms(1) have p: "p \<noteq> 0" and ok: "xmemcheck M p s = Some (0, s)"
    by (simp_all add: tracked_def)
  from xmemcheck_ok_block [OF p ok] obtain b where
    b: "heap s (mem_of p) = Some b" and idb: "unat (b_ID b) < M" by blast
  from idb assms(3,4) obtain s2 where
    rm: "update_mem_stats_remove (b_ID b) (b_size b) s = Some s2"
    by (simp add: update_mem_stats_remove_def Let_def)
  from stats_remove_add [OF rm] obtain s3 where
    ad: "update_mem_stats_add (b_ID b) (b_size b) s2 = Some s3" and
    eqs: "memsize s3 = memsize s" "memptrs s3 = memptrs s" "memused s3 = memused s"
         "memptrused s3 = memptrused s" "heap s3 = heap s" and
    mx: "maxmemsize s3 = (if maxmemsize s < memsize s ! 0 then memsize s ! 0 else maxmemsize s)"
        "maxmemptrs s3 = (if sint (maxmemptrs s) < sint (memptrs s ! 0) then memptrs s ! 0
                            else maxmemptrs s)"
    by blast
  have "xrealloc M rnd ca 0 junk p sz ID s = Some (0, say ''xrealloc: OUT OF MEMORY !!!'' s3)"
    using p assms(2) ok b rm ad by (simp add: xrealloc_def Let_def)
  with eqs mx show ?thesis by (auto simp: say_def)
qed

theorem xrealloc_failure_restores_witness:
  "tracked 25 1272 demo_mem \<and>
   (\<exists>s'. xrealloc 25 (\<lambda>k. 0) 0 0 [] 1272 8 3 demo_mem = Some (0, s') \<and>
           memsize s' = memsize demo_mem \<and> memptrs s' = memptrs demo_mem \<and>
           memused s' = 532 \<and> memptrused s' = 1 \<and> heap s' = heap demo_mem \<and>
           maxmemsize s' = 4 \<and> maxmemptrs s' = 1)"
proof -
  have t: "tracked 25 1272 demo_mem" by (rule demo_tracked)
  have "length (memsize demo_mem) = 25" "length (memptrs demo_mem) = 25" "(8 :: size_t) \<noteq> 0"
    by (simp_all add: demo_mem_def)
  from xrealloc_failure_restores [OF t this(3) this(1) this(2), of "\<lambda>k. 0" 0 "[]" 3]
  show ?thesis using t by (simp add: demo_mem_def)
qed


section \<open>Properties of the chain walk\<close>

lemma walk_steps_le: "count \<le> cap \<Longrightarrow> snd (walk cap es d count p) \<le> cap"
  by (induction cap es d count p rule: walk.induct) auto

lemma walk_hit: "fst (walk cap es d count p) = Hit i \<Longrightarrow> i < length es \<and> matches (es ! i) d"
  by (induction cap es d count p rule: walk.induct) (auto split: if_splits)

lemma walk_miss_chain:
  "fst (walk cap es d count p) = Miss \<Longrightarrow> count \<le> cap \<Longrightarrow>
     \<exists>xs. is_chain es p xs \<and> count + length xs \<le> cap \<and> (\<forall>i\<in>set xs. \<not> matches (es ! i) d)"
proof (induction cap es d count p rule: walk.induct)
  case (1 cap es d count)
  then show ?case by (intro exI [of _ "[]"]) simp
next
  case (2 cap es d count i)
  from "2.prems" have c: "\<not> cap \<le> count" "\<not> length es \<le> i" "\<not> matches (es ! i) d"
    and r: "fst (walk cap es d (Suc count) (e_hnext (es ! i))) = Miss"
    by (auto split: if_splits)
  from c have "Suc count \<le> cap" by simp
  from "2.IH" [OF c r this] obtain xs where
    "is_chain es (e_hnext (es ! i)) xs" "Suc count + length xs \<le> cap"
    "\<forall>j\<in>set xs. \<not> matches (es ! j) d" by blast
  with c show ?case by (intro exI [of _ "i # xs"]) simp
qed

lemma chain_walk_miss:
  "is_chain es p xs \<Longrightarrow> count + length xs \<le> cap \<Longrightarrow> \<forall>i\<in>set xs. \<not> matches (es ! i) d \<Longrightarrow>
     fst (walk cap es d count p) = Miss"
  by (induction xs arbitrary: p count) auto

lemma chain_walk_not_fatal:
  "is_chain es p xs \<Longrightarrow> count + length xs \<le> cap \<Longrightarrow> fst (walk cap es d count p) \<noteq> Fatal"
proof (induction xs arbitrary: p count)
  case Nil
  then show ?case by simp
next
  case (Cons x xs)
  from Cons.prems(1) have p: "p = Some x" and x: "x < length es"
    and ch: "is_chain es (e_hnext (es ! x)) xs" by simp_all
  from Cons.prems(2) have cnt: "count < cap" and cnt': "Suc count + length xs \<le> cap" by simp_all
  from Cons.IH [OF ch cnt'] p x cnt show ?case by simp
qed


lemma is_chain_unique: "is_chain es p xs \<Longrightarrow> is_chain es p ys \<Longrightarrow> xs = ys"
proof (induction xs arbitrary: p ys)
  case Nil
  then show ?case by (cases ys) simp_all
next
  case (Cons x xs)
  then show ?case by (cases ys) auto
qed

lemma is_chain_tail:
  "is_chain es p xs \<Longrightarrow> x \<in> set xs \<Longrightarrow>
     \<exists>ys zs. xs = ys @ x # zs \<and> is_chain es (e_hnext (es ! x)) zs"
proof (induction xs arbitrary: p)
  case Nil
  then show ?case by simp
next
  case (Cons y xs)
  show ?case
  proof (cases "x = y")
    case True
    with Cons.prems(1) have "y # xs = [] @ x # xs \<and> is_chain es (e_hnext (es ! x)) xs" by simp
    then show ?thesis by blast
  next
    case False
    with Cons.prems have "x \<in> set xs" "is_chain es (e_hnext (es ! y)) xs" by simp_all
    from Cons.IH [OF this(2) this(1)] obtain ys zs where
      "xs = ys @ x # zs" "is_chain es (e_hnext (es ! x)) zs" by blast
    then have "y # xs = (y # ys) @ x # zs \<and> is_chain es (e_hnext (es ! x)) zs" by simp
    then show ?thesis by blast
  qed
qed

lemma is_chain_distinct: "is_chain es p xs \<Longrightarrow> distinct xs"
proof (induction xs arbitrary: p)
  case Nil
  then show ?case by simp
next
  case (Cons x xs)
  from Cons.prems have ch: "is_chain es (e_hnext (es ! x)) xs" by simp
  have "x \<notin> set xs"
  proof
    assume "x \<in> set xs"
    from is_chain_tail [OF ch this] obtain ys zs where
      xs: "xs = ys @ x # zs" and "is_chain es (e_hnext (es ! x)) zs" by blast
    from is_chain_unique [OF ch this(2)] have "xs = zs" .
    with xs show False by simp
  qed
  with Cons.IH [OF ch] show ?case by simp
qed

lemma is_chain_in_range: "is_chain es p xs \<Longrightarrow> set xs \<subseteq> {..<length es}"
  by (induction xs arbitrary: p) auto

lemma is_chain_length: "is_chain es p xs \<Longrightarrow> length xs \<le> length es"
proof -
  assume ch: "is_chain es p xs"
  have "length xs = card (set xs)"
    using is_chain_distinct [OF ch] by (simp add: distinct_card)
  also have "\<dots> \<le> card {..<length es}"
    by (rule card_mono) (use is_chain_in_range [OF ch] in simp_all)
  finally show ?thesis by simp
qed

lemma find_hit_sound:
  "find_entry cap hash c d = Hit i \<Longrightarrow> i < length (entries c) \<and> matches (entries c ! i) d"
  by (auto simp: find_entry_def dest: walk_hit split: if_splits)



lemma find_miss_iff:
  "find_entry cap hash c d = Miss \<longleftrightarrow>
     hash d < length (buckets c) \<and>
     (\<exists>xs. is_chain (entries c) (buckets c ! hash d) xs \<and> length xs \<le> cap \<and>
           (\<forall>i\<in>set xs. \<not> matches (entries c ! i) d))"
  using walk_miss_chain [of cap "entries c" d 0 "buckets c ! hash d"]
    chain_walk_miss [of "entries c" "buckets c ! hash d" _ 0 cap d]
  by (auto simp: find_entry_def)

lemma find_fatal_only:
  assumes "find_entry cap hash c d = Fatal" "hash d < length (buckets c)"
    "is_chain (entries c) (buckets c ! hash d) xs"
  shows "cap < length xs"
proof (rule ccontr)
  assume "\<not> cap < length xs"
  then have "0 + length xs \<le> cap" by simp
  from chain_walk_not_fatal [OF assms(3) this, of d] assms(1,2)
  show False by (simp add: find_entry_def)
qed

lemma demo_cyclic_no_chain: "\<not> is_chain (entries demo_cyclic) (Some 0) xs"
  by (induction xs) (auto simp: demo_cyclic_def)

section \<open>Properties of insertion and eviction\<close>




















































text \<open>
  Claim C7. For every descriptor and every state of the tables, corrupt and cyclic
  chains included, the chain walk of \<open>find\<close> ends after following at most \<open>cap\<close> chain
  links. It reports "not found" exactly when the chain reaches its terminator within
  the cap without a match; on a chain that is cyclic, leaves the entry store or is
  longer than the cap, it reports a genuine match or the fatal failure, never a miss;
  and it reports the fatal failure only for such a chain. No chain that ends is longer
  than the entry store, so with a cap of at least \<open>CACHE_CAPACITY\<close> the fatal failure
  means a cyclic chain or a pointer outside the store.
\<close>

theorem find_walk_capped:
  "find_steps cap hash c d \<le> cap \<and>
   (find_entry cap hash c d = Miss \<longleftrightarrow>
      hash d < length (buckets c) \<and>
      (\<exists>xs. is_chain (entries c) (buckets c ! hash d) xs \<and> length xs \<le> cap \<and>
            (\<forall>i\<in>set xs. \<not> matches (entries c ! i) d))) \<and>
   ((\<forall>xs. is_chain (entries c) (buckets c ! hash d) xs \<longrightarrow> cap < length xs) \<longrightarrow>
      find_entry cap hash c d = Fatal \<or>
      (\<exists>i. find_entry cap hash c d = Hit i \<and> i < length (entries c) \<and> matches (entries c ! i) d)) \<and>
   (find_entry cap hash c d = Fatal \<longrightarrow> hash d < length (buckets c) \<longrightarrow>
      (\<forall>xs. is_chain (entries c) (buckets c ! hash d) xs \<longrightarrow> cap < length xs)) \<and>
   (find_entry cap hash c d = Fatal \<longrightarrow> hash d < length (buckets c) \<longrightarrow>
      length (entries c) \<le> cap \<longrightarrow>
      (\<forall>xs. \<not> is_chain (entries c) (buckets c ! hash d) xs))"
proof -
  have steps: "find_steps cap hash c d \<le> cap"
    using walk_steps_le [of 0 cap "entries c" d "buckets c ! hash d"]
    by (simp add: find_steps_def)
  have over: "find_entry cap hash c d = Fatal \<or>
      (\<exists>i. find_entry cap hash c d = Hit i \<and> i < length (entries c) \<and> matches (entries c ! i) d)"
    if no: "\<forall>xs. is_chain (entries c) (buckets c ! hash d) xs \<longrightarrow> cap < length xs"
  proof (cases "find_entry cap hash c d")
    case (Hit i)
    with find_hit_sound [OF Hit] show ?thesis by simp
  next
    case Miss
    then obtain xs where "is_chain (entries c) (buckets c ! hash d) xs" "length xs \<le> cap"
      unfolding find_miss_iff by blast
    with no show ?thesis by fastforce
  next
    case Fatal
    then show ?thesis by simp
  qed
  have fatal: "\<forall>xs. is_chain (entries c) (buckets c ! hash d) xs \<longrightarrow> cap < length xs"
    if "find_entry cap hash c d = Fatal" "hash d < length (buckets c)"
    using find_fatal_only [OF that] by blast
  have corrupt: "\<forall>xs. \<not> is_chain (entries c) (buckets c ! hash d) xs"
    if f: "find_entry cap hash c d = Fatal" "hash d < length (buckets c)"
      and big: "length (entries c) \<le> cap"
  proof (intro allI notI)
    fix xs
    assume ch: "is_chain (entries c) (buckets c ! hash d) xs"
    from find_fatal_only [OF f ch] is_chain_length [OF ch] big show False by simp
  qed
  from steps find_miss_iff [of cap hash c d] over fatal corrupt show ?thesis by blast
qed

theorem find_walk_capped_witness:
  "find_steps 3 (\<lambda>d. 0) demo_cyclic (Sprite 5 []) = 3 \<and>
   find_entry 3 (\<lambda>d. 0) demo_cyclic (Sprite 5 []) = Fatal \<and>
   (\<forall>xs. \<not> is_chain (entries demo_cyclic) (buckets demo_cyclic ! 0) xs) \<and>
   find_entry 3 demo_hash demo_loaded (Sprite 3 []) = Miss \<and>
   is_chain (entries demo_loaded) (buckets demo_loaded ! demo_hash (Sprite 3 [])) [0]"
proof -
  have nc: "\<forall>xs. \<not> is_chain (entries demo_cyclic) (buckets demo_cyclic ! 0) xs"
    using demo_cyclic_no_chain by (simp add: demo_cyclic_def)
  then have no: "\<forall>xs. is_chain (entries demo_cyclic) (buckets demo_cyclic ! (\<lambda>d. 0) (Sprite 5 [])) xs
      \<longrightarrow> 3 < length xs" by simp
  have nh: "find_entry 3 (\<lambda>d. 0) demo_cyclic (Sprite 5 []) \<noteq> Hit i" for i
    using find_hit_sound [of 3 "\<lambda>d. 0" demo_cyclic "Sprite 5 []" i]
    by (auto simp: demo_cyclic_def matches_def blank_entry_def)
  note t = find_walk_capped [of 3 "\<lambda>d. 0" demo_cyclic "Sprite 5 []"]
  from t no nh have f: "find_entry 3 (\<lambda>d. 0) demo_cyclic (Sprite 5 []) = Fatal" by blast
  have st: "find_steps 3 (\<lambda>d. 0) demo_cyclic (Sprite 5 []) = 3"
    by (simp add: find_steps_def demo_cyclic_def matches_def blank_entry_def)
  have ch: "is_chain (entries demo_loaded) (buckets demo_loaded ! demo_hash (Sprite 3 [])) [0]"
    by (simp add: demo_loaded_def link_def demo_cache_def)
  have ms: "find_entry 3 demo_hash demo_loaded (Sprite 3 []) = Miss"
    by (simp add: find_entry_def demo_loaded_def link_def demo_cache_def matches_def)
  from st f nc ms ch show ?thesis by blast
qed

end
